theory Spec2Isabelle
  imports Complex_Main "HOL-Library.Sublist" "HOL-Library.Multiset"
begin

section \<open>Python strings\<close>

text \<open>
  A Python \<open>str\<close> is modelled as a \<open>string\<close> whose characters are the code points
  U+0000 .. U+00FF. \<open>isspace\<close> is Python's \<open>str.isspace\<close> on one character of that range:
  TAB, LF, VT, FF, CR, the separators FS, GS, RS, US, the space, NEL (U+0085) and the
  no-break space (U+00A0).
\<close>

definition isspace :: "char \<Rightarrow> bool" where
  "isspace c =
     (let n = (of_char c :: nat)
      in (9 \<le> n \<and> n \<le> 13) \<or> (28 \<le> n \<and> n \<le> 32) \<or> n = 133 \<or> n = 160)"

text \<open>
  \<open>text.split()\<close> with no separator: runs of whitespace separate the words, and leading
  and trailing whitespace gives no empty word. \<open>split_acc w s\<close> scans \<open>s\<close> with the
  word \<open>w\<close> read so far.
\<close>

fun split_acc :: "string \<Rightarrow> string \<Rightarrow> string list" where
  "split_acc w [] = (if w = [] then [] else [w])"
| "split_acc w (c # cs) =
     (if isspace c then (if w = [] then split_acc [] cs else w # split_acc [] cs)
      else split_acc (w @ [c]) cs)"

definition split_ws :: "string \<Rightarrow> string list" where
  "split_ws s = split_acc [] s"

text \<open>\<open>sep.join(xs)\<close>.\<close>

fun join :: "string \<Rightarrow> string list \<Rightarrow> string" where
  "join sep [] = []"
| "join sep [x] = x"
| "join sep (x # y # zs) = x @ sep @ join sep (y # zs)"

text \<open>\<open>s.strip()\<close>: whitespace removed at both ends.\<close>

definition strip :: "string \<Rightarrow> string" where
  "strip s = rev (dropWhile isspace (rev (dropWhile isspace s)))"

text \<open>\<open>sub in s\<close> on strings: \<open>sub\<close> occurs in \<open>s\<close> as a contiguous piece.\<close>

fun contains :: "string \<Rightarrow> string \<Rightarrow> bool" where
  "contains sub [] = (sub = [])"
| "contains sub (c # cs) = (prefix sub (c # cs) \<or> contains sub cs)"

text \<open>
  \<open>s.split(sep)\<close> and \<open>s.replace(old, new)\<close>, scanning from the left for occurrences that
  do not overlap. The source calls both with non-empty literals only; on an empty
  separator Python raises \<open>ValueError\<close>, on an empty \<open>old\<close> it interleaves \<open>new\<close>, and
  neither case is reached here (the functions below then find no occurrence).
\<close>

function split_sep_acc :: "string \<Rightarrow> string \<Rightarrow> string \<Rightarrow> string list" where
  "split_sep_acc sep cur [] = [cur]"
| "split_sep_acc sep cur (c # cs) =
     (if sep \<noteq> [] \<and> prefix sep (c # cs)
      then cur # split_sep_acc sep [] (drop (length sep) (c # cs))
      else split_sep_acc sep (cur @ [c]) cs)"
  by pat_completeness auto
termination
  by (relation "measure (\<lambda>(sep, cur, s). length s)") auto

definition split_sep :: "string \<Rightarrow> string \<Rightarrow> string list" where
  "split_sep sep s = split_sep_acc sep [] s"

function replace :: "string \<Rightarrow> string \<Rightarrow> string \<Rightarrow> string" where
  "replace old new [] = []"
| "replace old new (c # cs) =
     (if old \<noteq> [] \<and> prefix old (c # cs)
      then new @ replace old new (drop (length old) (c # cs))
      else c # replace old new cs)"
  by pat_completeness auto
termination
  by (relation "measure (\<lambda>(old, new, s). length s)") auto

text \<open>\<open>s.lower()\<close> on the code points below 256: A-Z and the Latin-1 capitals.\<close>

definition lower_char :: "char \<Rightarrow> char" where
  "lower_char c =
     (let n = (of_char c :: nat)
      in if (65 \<le> n \<and> n \<le> 90) \<or> (192 \<le> n \<and> n \<le> 222 \<and> n \<noteq> 215)
         then char_of (n + 32) else c)"

definition lower :: "string \<Rightarrow> string" where
  "lower s = map lower_char s"

definition isdigit :: "char \<Rightarrow> bool" where
  "isdigit c = (let n = (of_char c :: nat) in 48 \<le> n \<and> n \<le> 57)"

definition isalnum_ascii :: "char \<Rightarrow> bool" where
  "isalnum_ascii c =
     (let n = (of_char c :: nat)
      in (97 \<le> n \<and> n \<le> 122) \<or> (65 \<le> n \<and> n \<le> 90) \<or> (48 \<le> n \<and> n \<le> 57))"

text \<open>\<open>re.sub(r"[^a-zA-Z0-9 ]", "", s)\<close>: every other character is deleted.\<close>

definition sub_non_alnum :: "string \<Rightarrow> string" where
  "sub_non_alnum s = filter (\<lambda>c. isalnum_ascii c \<or> c = CHR '' '') s"

section \<open>Regular expressions\<close>

text \<open>
  A compiled pattern is a backtracking matcher: applied to the input at the current
  position it returns the rest of the input after each way of matching, in the order
  in which Python tries them (greedy first). \<open>pattern.match(s)\<close> succeeds when the
  pattern matches at the start of \<open>s\<close>, whatever follows; \<open>pattern.fullmatch(s)\<close> when
  some way of matching leaves nothing.
\<close>

type_synonym pattern = "string \<Rightarrow> string list"

definition re_lit :: "string \<Rightarrow> pattern" where
  "re_lit p s = (if prefix p s then [drop (length p) s] else [])"

definition re_digit :: pattern where
  "re_digit s = (case s of [] \<Rightarrow> [] | c # cs \<Rightarrow> if isdigit c then [cs] else [])"

definition re_seq :: "pattern \<Rightarrow> pattern \<Rightarrow> pattern" where
  "re_seq p q s = concat (map q (p s))"

definition re_opt :: "pattern \<Rightarrow> pattern" where
  "re_opt p s = p s @ [s]"

fun re_times :: "nat \<Rightarrow> pattern \<Rightarrow> pattern" where
  "re_times 0 p s = [s]"
| "re_times (Suc n) p s = concat (map (re_times n p) (p s))"

text \<open>\<open>\d*\<close> and \<open>\d+\<close>, the longest run of digits first.\<close>

fun re_digits0 :: pattern where
  "re_digits0 [] = [[]]"
| "re_digits0 (c # cs) = (if isdigit c then re_digits0 cs @ [c # cs] else [c # cs])"

definition re_digits1 :: pattern where
  "re_digits1 = re_seq re_digit re_digits0"

definition re_match :: "pattern \<Rightarrow> string \<Rightarrow> bool" where
  "re_match p s = (p s \<noteq> [])"

definition re_fullmatch :: "pattern \<Rightarrow> string \<Rightarrow> bool" where
  "re_fullmatch p s = ([] \<in> set (p s))"

section \<open>The outside world\<close>

text \<open>
  Every exception of the source is caught as \<open>Exception\<close> and only printed or formatted,
  so an exception is its message. A computation that may raise returns \<open>exn + 'a\<close>, with
  \<open>Inl\<close> the exception raised.
\<close>

datatype exn = Exception string

record response =
  status_code :: nat
  body :: string

datatype param = PStr string | PInt int

text \<open>
  The values of Python that a decoded JSON response can hold. A search result hands on
  what the response holds under \<open>"url"\<close> or \<open>'href'\<close>, a string or not.
\<close>

datatype py_value =
    PyNone
  | PyBool bool
  | PyInt int
  | PyFloat real
  | PyStr string
  | PyList "py_value list"
  | PyDict "(string \<times> py_value) list"

text \<open>The truth value of a Python value, as \<open>if v:\<close> tests it.\<close>

fun truthy :: "py_value \<Rightarrow> bool" where
  "truthy PyNone = False"
| "truthy (PyBool b) = b"
| "truthy (PyInt i) = (i \<noteq> 0)"
| "truthy (PyFloat x) = (x \<noteq> 0)"
| "truthy (PyStr s) = (s \<noteq> [])"
| "truthy (PyList xs) = (xs \<noteq> [])"
| "truthy (PyDict kvs) = (kvs \<noteq> [])"

text \<open>
  The services the code talks to, as functions of the request. Sleeping and the clock
  (\<open>time.sleep\<close>, \<open>asyncio.sleep\<close>, the one request per second of \<open>brave_search\<close>) change no
  result and are left out.
  \<^item> \<open>requests_get url params\<close> is \<open>requests.get(url, params=params, ...)\<close>;
  \<^item> \<open>json_brave\<close> and \<open>json_scholar\<close> are \<open>response.json()\<close> read the way the caller reads
    it. For Brave: \<open>None\<close> when \<open>"web" in results and "results" in results["web"]\<close> is false,
    else for each result \<open>r\<close> the value \<open>r.get("url")\<close> (\<open>PyNone\<close> when absent or null). For
    Semantic Scholar: \<open>None\<close> when the key \<open>"data"\<close> is absent, else for each paper
    \<open>Some (paper["url"])\<close> when \<open>"url" in paper\<close> and \<open>None\<close> when not. A body that is not
    JSON, or not of a shape these expressions can walk, is an exception;
  \<^item> \<open>ddgs_text attempt query n\<close> is \<open>list(ddgs.text(query, max_results=n))\<close> at the given
    attempt, each result \<open>r\<close> as \<open>Some (r['href'])\<close> when \<open>'href' in r\<close>;
  \<^item> \<open>google_search query n\<close> is \<open>list(google_search(query, num_results=n, lang="en"))\<close>,
    whose elements are strings;
  \<^item> \<open>soup_paragraphs html\<close> is \<open>p.get_text()\<close> for each \<open>p\<close> of
    \<open>BeautifulSoup(html, "html.parser").find_all("p")\<close>, or the exception the parser
    raises;
  \<^item> \<open>article_text url\<close> is \<open>Article(url)\<close> downloaded and parsed, then \<open>article.text\<close>;
  \<^item> \<open>page_content url\<close> is the HTML of the page rendered by the headless browser;
  \<^item> \<open>cos_sim query doc\<close> is the cosine similarity of the two embeddings;
  \<^item> \<open>llm_ainvoke prompt\<close> is the content of the model's response.
  The source annotates its lists of URLs as \<open>List[str]\<close>, but nothing makes the value
  under \<open>"url"\<close> a string, so a list of URLs is a \<open>py_value list\<close>.
\<close>

record world =
  requests_get :: "string \<Rightarrow> (string \<times> param) list \<Rightarrow> exn + response"
  json_brave :: "response \<Rightarrow> exn + py_value list option"
  json_scholar :: "response \<Rightarrow> exn + py_value option list option"
  ddgs_text :: "nat \<Rightarrow> string \<Rightarrow> nat \<Rightarrow> exn + py_value option list"
  google_search :: "string \<Rightarrow> nat \<Rightarrow> exn + string list"
  soup_paragraphs :: "string \<Rightarrow> exn + string list"
  article_text :: "string \<Rightarrow> exn + string"
  page_content :: "string \<Rightarrow> exn + string"
  cos_sim :: "string \<Rightarrow> string \<Rightarrow> real"
  llm_ainvoke :: "string \<Rightarrow> exn + string"

text \<open>\<open>response.raise_for_status()\<close>: a status from 400 to 599 raises \<open>HTTPError\<close>.\<close>

definition raise_for_status :: "response \<Rightarrow> exn + unit" where
  "raise_for_status r =
     (if 400 \<le> status_code r \<and> status_code r < 600 then Inl (Exception ''HTTPError'')
      else Inr ())"

section \<open>ResearchHelpFunctions\<close>

definition SEMANTIC_SCHOLAR_API :: string where
  "SEMANTIC_SCHOLAR_API = ''https://api.semanticscholar.org/graph/v1/paper/search''"

definition ARXIV_BASE_URL :: string where
  "ARXIV_BASE_URL = ''http://export.arxiv.org/api/query''"

definition BRAVE_SEARCH_URL :: string where
  "BRAVE_SEARCH_URL = ''https://api.search.brave.com/res/v1/web/search''"

definition MAX_WORD_LIMIT :: nat where
  "MAX_WORD_LIMIT = 9000"

text \<open>\<^verbatim>\<open>ARXIV_VALID_REGEX = re.compile(r"https?://arxiv\.org/abs/\d{4}\.\d{5}(v\d+)?")\<close>\<close>

definition ARXIV_VALID_REGEX :: pattern where
  "ARXIV_VALID_REGEX =
     re_seq (re_lit ''http'')
    (re_seq (re_opt (re_lit ''s''))
    (re_seq (re_lit ''://arxiv.org/abs/'')
    (re_seq (re_times 4 re_digit)
    (re_seq (re_lit ''.'')
    (re_seq (re_times 5 re_digit)
            (re_opt (re_seq (re_lit ''v'') re_digits1)))))))"

subsection \<open>The search providers\<close>

text \<open>
  Each provider is a \<open>try\<close> block, modelled by the function named \<open>_try\<close>, and its handler
  \<open>except Exception: return []\<close>.
  \<^verbatim>\<open>
  def brave_search(self, query):
      ...
      params = {"q": query, "count": 5}
      try:
          response = requests.get(url, headers=headers, params=params, timeout=10)
          response.raise_for_status()
          results = response.json()
          if "web" in results and "results" in results["web"]:
              return [r.get("url") for r in results["web"]["results"] if r.get("url")]
          else:
              return []
      except Exception as e:
          return []
  \<close>
\<close>

definition brave_search_try :: "world \<Rightarrow> string \<Rightarrow> exn + py_value list" where
  "brave_search_try w query =
     (case requests_get w BRAVE_SEARCH_URL [(''q'', PStr query), (''count'', PInt 5)] of
        Inl e \<Rightarrow> Inl e
      | Inr response \<Rightarrow>
         (case raise_for_status response of
            Inl e \<Rightarrow> Inl e
          | Inr _ \<Rightarrow>
             (case json_brave w response of
                Inl e \<Rightarrow> Inl e
              | Inr None \<Rightarrow> Inr []
              | Inr (Some results) \<Rightarrow> Inr (filter truthy results))))"

definition brave_search :: "world \<Rightarrow> string \<Rightarrow> exn + py_value list" where
  "brave_search w query =
     (case brave_search_try w query of Inl e \<Rightarrow> Inr [] | Inr urls \<Rightarrow> Inr urls)"

text \<open>
  \<^verbatim>\<open>
  def search_arvix(self, query: str, max_results: int = 3) -> List[str]:
      try:
          params = {"search_query": f"all:{query}", "start": 0, "max_results": max_results}
          response = requests.get(self.ARXIV_BASE_URL, params=params, timeout=10)
          response.raise_for_status()
          entries = response.text.split("<entry>")
          links = []
          query_keywords = set(re.sub(r"[^a-zA-Z0-9 ]", "", query).lower().split())
          for entry in entries:
              if "<id>" in entry and "<title>" in entry:
                  raw_url = entry.split("<id>")[1].split("</id>")[0].replace("/api/", "/abs/")
                  title = entry.split("<title>")[1].split("</title>")[0].lower()
                  if self.ARXIV_VALID_REGEX.match(raw_url):
                      title_words = set(re.sub(r"[^a-zA-Z0-9 ]", "", title).split())
                      if len(query_keywords & title_words) > 0:
                          links.append(raw_url)
          return links
      except Exception as e:
          return []
  \<close>
  The two indexings cannot raise: \<open>"<id>" in entry\<close> gives the split a second element,
  and a split always has a first one (lemmas \<open>split_sep_second\<close>, \<open>split_sep_first\<close>).
\<close>

definition query_keywords :: "string \<Rightarrow> string list" where
  "query_keywords query = split_ws (lower (sub_non_alnum query))"

definition entry_raw_url :: "string \<Rightarrow> string" where
  "entry_raw_url entry =
     replace ''/api/'' ''/abs/'' (hd (split_sep ''</id>'' (split_sep ''<id>'' entry ! 1)))"

definition entry_title :: "string \<Rightarrow> string" where
  "entry_title entry = lower (hd (split_sep ''</title>'' (split_sep ''<title>'' entry ! 1)))"

definition title_words :: "string \<Rightarrow> string list" where
  "title_words title = split_ws (sub_non_alnum title)"

fun arxiv_links :: "string list \<Rightarrow> string list \<Rightarrow> string list \<Rightarrow> string list" where
  "arxiv_links keywords [] links = links"
| "arxiv_links keywords (entry # entries) links =
     (if contains ''<id>'' entry \<and> contains ''<title>'' entry
      then (let raw_url = entry_raw_url entry; title = entry_title entry
            in if re_match ARXIV_VALID_REGEX raw_url
               then (if set keywords \<inter> set (title_words title) \<noteq> {}
                     then arxiv_links keywords entries (links @ [raw_url])
                     else arxiv_links keywords entries links)
               else arxiv_links keywords entries links)
      else arxiv_links keywords entries links)"

definition search_arvix_try :: "world \<Rightarrow> string \<Rightarrow> nat \<Rightarrow> exn + string list" where
  "search_arvix_try w query max_results =
     (case requests_get w ARXIV_BASE_URL
             [(''search_query'', PStr (''all:'' @ query)), (''start'', PInt 0),
              (''max_results'', PInt (int max_results))] of
        Inl e \<Rightarrow> Inl e
      | Inr response \<Rightarrow>
         (case raise_for_status response of
            Inl e \<Rightarrow> Inl e
          | Inr _ \<Rightarrow>
              Inr (arxiv_links (query_keywords query) (split_sep ''<entry>'' (body response)) [])))"

definition search_arvix :: "world \<Rightarrow> string \<Rightarrow> nat \<Rightarrow> exn + string list" where
  "search_arvix w query max_results =
     (case search_arvix_try w query max_results of Inl e \<Rightarrow> Inr [] | Inr links \<Rightarrow> Inr links)"

text \<open>
  \<^verbatim>\<open>
  def semantic_search_scholar(self, query: str, max_results: int = 3) -> List[str]:
      try:
          params = {"query": query, "limit": max_results, "fields": "title,url"}
          response = requests.get(self.SEMANTIC_SCHOLAR_API, params=params, timeout=10)
          response.raise_for_status()
          data = response.json()
          return [paper["url"] for paper in data.get("data", []) if "url" in paper]
      except Exception as e:
          return []
  \<close>
\<close>

definition semantic_search_scholar_try :: "world \<Rightarrow> string \<Rightarrow> nat \<Rightarrow> exn + py_value list" where
  "semantic_search_scholar_try w query max_results =
     (case requests_get w SEMANTIC_SCHOLAR_API
             [(''query'', PStr query), (''limit'', PInt (int max_results)),
              (''fields'', PStr ''title,url'')] of
        Inl e \<Rightarrow> Inl e
      | Inr response \<Rightarrow>
         (case raise_for_status response of
            Inl e \<Rightarrow> Inl e
          | Inr _ \<Rightarrow>
             (case json_scholar w response of
                Inl e \<Rightarrow> Inl e
              | Inr None \<Rightarrow> Inr []
              | Inr (Some papers) \<Rightarrow>
                  Inr (concat (map (\<lambda>paper. case paper of None \<Rightarrow> [] | Some url \<Rightarrow> [url]) papers)))))"

definition semantic_search_scholar :: "world \<Rightarrow> string \<Rightarrow> nat \<Rightarrow> exn + py_value list" where
  "semantic_search_scholar w query max_results =
     (case semantic_search_scholar_try w query max_results of
        Inl e \<Rightarrow> Inr [] | Inr urls \<Rightarrow> Inr urls)"

text \<open>
  \<^verbatim>\<open>
  def search_duckduckgo(self, query, num_results=3, retries=3, delay_range=(7, 15)):
      for attempt in range(retries):
          try:
              time.sleep(random.uniform(*delay_range))
              with DDGS() as ddgs:
                  results = list(ddgs.text(query, max_results=num_results))
                  return [r['href'] for r in results if 'href' in r]
          except Exception as e:
              print(...)
      return []
  \<close>
  \<open>duckduckgo_attempts w query n attempt k\<close> is the loop with \<open>k\<close> attempts left.
\<close>

fun duckduckgo_attempts :: "world \<Rightarrow> string \<Rightarrow> nat \<Rightarrow> nat \<Rightarrow> nat \<Rightarrow> exn + py_value list" where
  "duckduckgo_attempts w query num_results attempt 0 = Inr []"
| "duckduckgo_attempts w query num_results attempt (Suc k) =
     (case ddgs_text w attempt query num_results of
        Inl e \<Rightarrow> duckduckgo_attempts w query num_results (Suc attempt) k
      | Inr results \<Rightarrow>
          Inr (concat (map (\<lambda>r. case r of None \<Rightarrow> [] | Some href \<Rightarrow> [href]) results)))"

definition search_duckduckgo :: "world \<Rightarrow> string \<Rightarrow> nat \<Rightarrow> nat \<Rightarrow> exn + py_value list" where
  "search_duckduckgo w query num_results retries =
     duckduckgo_attempts w query num_results 0 retries"

text \<open>
  \<^verbatim>\<open>
  def search_google(self, query: str, num_results: int = 3) -> List[str]:
      try:
          return list(google_search(query, num_results=num_results, lang="en"))
      except Exception as e:
          return []
  \<close>
\<close>

definition search_google :: "world \<Rightarrow> string \<Rightarrow> nat \<Rightarrow> exn + string list" where
  "search_google w query num_results =
     (case google_search w query num_results of Inl e \<Rightarrow> Inr [] | Inr urls \<Rightarrow> Inr urls)"

subsection \<open>The search fallback chain\<close>

text \<open>
  \<^verbatim>\<open>
  def robust_search(self, query: str, num_results: int = 3) -> List[str]:
      urls = []
      search_functions = [
          lambda q: self.brave_search(q),
          lambda q: self.search_arvix(q, num_results),
          lambda q: self.semantic_search_scholar(q, num_results),
          lambda q: self.search_duckduckgo(q, num_results),
          lambda q: self.search_google(q, num_results)
      ]
      for fn in search_functions:
          try:
              new_urls = fn(query)
              for url in new_urls:
                  if "arxiv.org/abs/" in url and not self.ARXIV_VALID_REGEX.match(url):
                      continue
                  urls.append(url)
              if urls:
                  time.sleep(5)
                  break
          except Exception as e:
              print(...)
      return urls
  \<close>
  \<open>malformed_arxiv\<close> is the test of the inner loop on a string. On a value that is not a
  string the test is \<open>url_test\<close>: \<open>in\<close> raises \<open>TypeError\<close> on \<open>None\<close>, a boolean and a
  number; on a list or a dictionary it looks for an element or a key equal to
  \<open>"arxiv.org/abs/"\<close>, and when it finds one \<open>match\<close> raises \<open>TypeError\<close>.

  The \<open>try\<close> block holds the inner loop, and \<open>urls\<close> is changed in place: when the test
  raises, the URLs appended before stay in \<open>urls\<close>, the rest of the block (with its
  \<open>break\<close>) is skipped and the outer loop goes on. \<open>accept_urls\<close> is the inner loop: it
  returns \<open>urls\<close> as the loop leaves it, and the exception when it raised. \<open>search_loop\<close> is
  the outer loop. Beside \<open>urls\<close> the model returns how many of the search functions were
  called, which the source does not record.

  \<open>search_arvix\<close> and \<open>search_google\<close> return strings; \<open>as_values\<close> takes their result to the
  type of the other three.
\<close>

definition malformed_arxiv :: "string \<Rightarrow> bool" where
  "malformed_arxiv url = (contains ''arxiv.org/abs/'' url \<and> \<not> re_match ARXIV_VALID_REGEX url)"

fun url_test :: "py_value \<Rightarrow> exn + bool" where
  "url_test (PyStr url) = Inr (malformed_arxiv url)"
| "url_test (PyList xs) =
     (if PyStr ''arxiv.org/abs/'' \<in> set xs then Inl (Exception ''TypeError'') else Inr False)"
| "url_test (PyDict kvs) =
     (if ''arxiv.org/abs/'' \<in> set (map fst kvs) then Inl (Exception ''TypeError'') else Inr False)"
| "url_test v = Inl (Exception ''TypeError'')"

fun accept_urls :: "py_value list \<Rightarrow> py_value list \<Rightarrow> py_value list \<times> exn option" where
  "accept_urls urls [] = (urls, None)"
| "accept_urls urls (url # new_urls) =
     (case url_test url of
        Inl e \<Rightarrow> (urls, Some e)
      | Inr malformed \<Rightarrow>
          if malformed then accept_urls urls new_urls
          else accept_urls (urls @ [url]) new_urls)"

fun search_loop ::
  "(string \<Rightarrow> exn + py_value list) list \<Rightarrow> string \<Rightarrow> py_value list \<Rightarrow> nat
     \<Rightarrow> py_value list \<times> nat" where
  "search_loop [] query urls called = (urls, called)"
| "search_loop (fn # fns) query urls called =
     (case fn query of
        Inl e \<Rightarrow> search_loop fns query urls (Suc called)
      | Inr new_urls \<Rightarrow>
         (case accept_urls urls new_urls of
            (urls', Some e) \<Rightarrow> search_loop fns query urls' (Suc called)
          | (urls', None) \<Rightarrow>
              if urls' \<noteq> [] then (urls', Suc called)
              else search_loop fns query urls' (Suc called)))"

definition as_values :: "exn + string list \<Rightarrow> exn + py_value list" where
  "as_values r = (case r of Inl e \<Rightarrow> Inl e | Inr urls \<Rightarrow> Inr (map PyStr urls))"

definition search_functions :: "world \<Rightarrow> nat \<Rightarrow> (string \<Rightarrow> exn + py_value list) list" where
  "search_functions w num_results =
     [\<lambda>q. brave_search w q,
      \<lambda>q. as_values (search_arvix w q num_results),
      \<lambda>q. semantic_search_scholar w q num_results,
      \<lambda>q. search_duckduckgo w q num_results 3,
      \<lambda>q. as_values (search_google w q num_results)]"

definition robust_search :: "world \<Rightarrow> string \<Rightarrow> nat \<Rightarrow> py_value list \<times> nat" where
  "robust_search w query num_results = search_loop (search_functions w num_results) query [] 0"

subsection \<open>The content extraction chain\<close>

text \<open>
  \<^verbatim>\<open>
  async def fetch_full_text(self, url: str, timeout: int = 10) -> str:
      if "arxiv.org/abs/" in url and not self.ARXIV_VALID_REGEX.match(url):
          return ""
      headers = {"User-Agent": "Mozilla/5.0", "Accept": "text/html"}
      try:
          response = requests.get(url, headers=headers, timeout=timeout)
          if response.status_code == 200:
              soup = BeautifulSoup(response.text, "html.parser")
              return "\n".join(p.get_text() for p in soup.find_all("p") if p.get_text().strip())
      except Exception as e:
          print(...)
      try:
          article = Article(url)
          article.download()
          article.parse()
          return article.text
      except Exception as e:
          print(...)
      try:
          async with async_playwright() as p:
              ...
              content = await page.content()
              soup = BeautifulSoup(content, "html.parser")
              await browser.close()
              return "\n".join(p.get_text() for p in soup.find_all("p") if p.get_text().strip())
      except Exception as e:
          print(...)
      return ""
  \<close>
  Beside the text the model returns the strategies that were started, in order, which
  the source does not record. The parser runs inside the \<open>try\<close> block of the first and
  of the third strategy: when it raises there, the strategy has failed.
\<close>

datatype strategy = Requests | Newspaper | Playwright

definition paragraph_text :: "string list \<Rightarrow> string" where
  "paragraph_text ps = join [CHR 0x0A] (filter (\<lambda>p. strip p \<noteq> []) ps)"

text \<open>The first \<open>try\<close> block: \<open>Some\<close> the text it returns, \<open>None\<close> when control leaves the block.\<close>

definition fetch_requests :: "world \<Rightarrow> string \<Rightarrow> string option" where
  "fetch_requests w url =
     (case requests_get w url [] of
        Inl e \<Rightarrow> None
      | Inr response \<Rightarrow>
          if status_code response = 200
          then (case soup_paragraphs w (body response) of
                  Inl e \<Rightarrow> None
                | Inr ps \<Rightarrow> Some (paragraph_text ps))
          else None)"

definition fetch_full_text :: "world \<Rightarrow> string \<Rightarrow> string \<times> strategy list" where
  "fetch_full_text w url =
     (if malformed_arxiv url then ([], [])
      else case fetch_requests w url of
        Some t \<Rightarrow> (t, [Requests])
      | None \<Rightarrow>
         (case article_text w url of
            Inr t \<Rightarrow> (t, [Requests, Newspaper])
          | Inl e \<Rightarrow>
             (case page_content w url of
                Inr content \<Rightarrow>
                  (case soup_paragraphs w content of
                     Inr ps \<Rightarrow> (paragraph_text ps, [Requests, Newspaper, Playwright])
                   | Inl e' \<Rightarrow> ([], [Requests, Newspaper, Playwright]))
              | Inl e' \<Rightarrow> ([], [Requests, Newspaper, Playwright]))))"

subsection \<open>The word budget\<close>

text \<open>The marker \<open>"\n\n...[TRUNCATED]"\<close>.\<close>

definition TRUNCATED :: string where
  "TRUNCATED = [CHR 0x0A, CHR 0x0A] @ ''...[TRUNCATED]''"

text \<open>
  \<^verbatim>\<open>
  def truncate_context(self, text: str) -> str:
      words = text.split()
      return " ".join(words[:self.MAX_WORD_LIMIT]) + ("\n\n...[TRUNCATED]" if len(words) > self.MAX_WORD_LIMIT else "")
  \<close>
\<close>

definition truncate_context :: "string \<Rightarrow> string" where
  "truncate_context text =
     (let words = split_ws text
      in join '' '' (take MAX_WORD_LIMIT words)
         @ (if length words > MAX_WORD_LIMIT then TRUNCATED else []))"

text \<open>
  \<^verbatim>\<open>
  def rank_and_select_contexts(self, query: str, docs: List[str]) -> str:
      query_emb = self.embedder.encode(query, convert_to_tensor=True)
      ranked = []
      for doc in docs:
          doc_emb = self.embedder.encode(doc, convert_to_tensor=True)
          score = util.cos_sim(query_emb, doc_emb).item()
          ranked.append((score, doc))
      ranked.sort(reverse=True, key=lambda x: x[0])
      selected, total_words = [], 0
      for _, doc in ranked:
          words = doc.split()
          if total_words + len(words) > self.MAX_WORD_LIMIT:
              break
          selected.append(doc)
          total_words += len(words)
      return "\n\n".join(selected)
  \<close>
  A score is a real number (no NaN). Python's sort is stable, also with \<open>reverse=True\<close>:
  documents of equal score keep the order of \<open>docs\<close>; this is the stable sort by the
  negated score.
\<close>

definition ranked :: "world \<Rightarrow> string \<Rightarrow> string list \<Rightarrow> (real \<times> string) list" where
  "ranked w query docs = sort_key (\<lambda>x. - fst x) (map (\<lambda>doc. (cos_sim w query doc, doc)) docs)"

fun select_loop :: "(real \<times> string) list \<Rightarrow> string list \<Rightarrow> nat \<Rightarrow> string list" where
  "select_loop [] selected total_words = selected"
| "select_loop ((score, doc) # rest) selected total_words =
     (let words = split_ws doc
      in if total_words + length words > MAX_WORD_LIMIT then selected
         else select_loop rest (selected @ [doc]) (total_words + length words))"

definition selected_contexts :: "world \<Rightarrow> string \<Rightarrow> string list \<Rightarrow> string list" where
  "selected_contexts w query docs = select_loop (ranked w query docs) [] 0"

definition rank_and_select_contexts :: "world \<Rightarrow> string \<Rightarrow> string list \<Rightarrow> string" where
  "rank_and_select_contexts w query docs =
     join [CHR 0x0A, CHR 0x0A] (selected_contexts w query docs)"

subsection \<open>The sub-agent\<close>

text \<open>
  \<^verbatim>\<open>
  async def sub_agent_fn(query: str) -> dict:
      urls = self.robust_search(query)
      if not urls:
          return {"result": f"{name}: No useful links found for query: {query}", "sources": []}
      contents = []
      sites = []
      for url in urls[:2]:
          try:
              content = await self.fetch_full_text(url)
              if content:
                  contents.append(content)
                  sites.append(url)
              await asyncio.sleep(3)
          except Exception as e:
              print(...)
      if not contents:
          return {"result": f"{name}: No content scraped for: {query}", "sources": sites}
      full_context = self.rank_and_select_contexts(query, contents)
      safe_context = self.truncate_context(full_context)
      try:
          final_prompt = prompt.invoke({"name": name, "context": safe_context})
          response = await self.llm.ainvoke(final_prompt)
          answer = response.content if hasattr(response, "content") else str(response)
      except Exception as e:
          answer = f"{name}: LLM failed to respond due to: {e}"
      return {"result": answer, "sources": sites}
  \<close>
  On a string \<open>fetch_full_text\<close> returns in every case. \<open>fetch_value\<close> is the call on any
  value that \<open>robust_search\<close> may hand on: on a value that is not a string the test
  before the first \<open>try\<close> block may raise, which the handler of the scraping loop
  catches; when it does not, \<open>requests.get\<close>, \<open>Article\<close> and \<open>page.goto\<close> each raise on it
  inside their \<open>try\<close> blocks, and the empty string is returned.
\<close>

record agent_result =
  result :: string
  sources :: "py_value list"

fun fetch_value :: "world \<Rightarrow> py_value \<Rightarrow> exn + string" where
  "fetch_value w (PyStr url) = Inr (fst (fetch_full_text w url))"
| "fetch_value w v = (case url_test v of Inl e \<Rightarrow> Inl e | Inr malformed \<Rightarrow> Inr [])"

definition prompt_invoke :: "string \<Rightarrow> string \<Rightarrow> string" where
  "prompt_invoke name context =
     [CHR 0x0A] @ ''            You are '' @ name @ '', an expert researcher.'' @ [CHR 0x0A, CHR 0x0A]
     @ ''            Here is research content:'' @ [CHR 0x0A, CHR 0x0A]
     @ ''            '' @ context @ [CHR 0x0A, CHR 0x0A]
     @ ''            Write a well-structured content based on this.'' @ [CHR 0x0A]
     @ ''            ''"

fun scrape_loop ::
  "world \<Rightarrow> py_value list \<Rightarrow> string list \<Rightarrow> py_value list \<Rightarrow> string list \<times> py_value list" where
  "scrape_loop w [] contents sites = (contents, sites)"
| "scrape_loop w (url # urls) contents sites =
     (case fetch_value w url of
        Inl e \<Rightarrow> scrape_loop w urls contents sites
      | Inr content \<Rightarrow>
          if content \<noteq> [] then scrape_loop w urls (contents @ [content]) (sites @ [url])
          else scrape_loop w urls contents sites)"

definition sub_agent_fn :: "world \<Rightarrow> string \<Rightarrow> string \<Rightarrow> agent_result" where
  "sub_agent_fn w name query =
     (let urls = fst (robust_search w query 3)
      in if urls = []
         then \<lparr>result = name @ '': No useful links found for query: '' @ query, sources = []\<rparr>
         else
          (case scrape_loop w (take 2 urls) [] [] of
             (contents, sites) \<Rightarrow>
               if contents = []
               then \<lparr>result = name @ '': No content scraped for: '' @ query, sources = sites\<rparr>
               else
                (let full_context = rank_and_select_contexts w query contents;
                     safe_context = truncate_context full_context;
                     answer = (case llm_ainvoke w (prompt_invoke name safe_context) of
                                 Inr content \<Rightarrow> content
                               | Inl (Exception e) \<Rightarrow> name @ '': LLM failed to respond due to: '' @ e)
                 in \<lparr>result = answer, sources = sites\<rparr>)))"

section \<open>ResearchDatabase\<close>

text \<open>
  \<^verbatim>\<open>
  def save_final_report(self, session_id: str, structure_id: str, report_data: Dict) -> str:
      report_id = str(uuid.uuid4())
      word_count = 0
      for section_content in report_data.values():
          if isinstance(section_content, str):
              word_count += len(section_content.split())
      ...
      cursor.execute('INSERT INTO final_reports (report_id, session_id, structure_id, report_data, word_count)
                      VALUES (?, ?, ?, ?, ?)',
                     (report_id, session_id, structure_id, json.dumps(report_data), word_count))
      conn.commit()
      return report_id
  \<close>
  A section value is a string or another Python value. The table \<open>final_reports\<close> is the list
  of its rows, the new identifier is given by the caller of the model, and the column
  \<open>report_data\<close> holds the dictionary itself in place of its JSON text.
\<close>

fun count_words :: "py_value list \<Rightarrow> nat \<Rightarrow> nat" where
  "count_words [] word_count = word_count"
| "count_words (PyStr section_content # values) word_count =
     count_words values (word_count + length (split_ws section_content))"
| "count_words (section_content # values) word_count = count_words values word_count"

record final_report =
  report_id :: string
  session_id :: string
  structure_id :: string
  report_data :: "(string \<times> py_value) list"
  word_count :: nat

definition save_final_report ::
  "final_report list \<Rightarrow> string \<Rightarrow> string \<Rightarrow> string \<Rightarrow> (string \<times> py_value) list
     \<Rightarrow> string \<times> final_report list" where
  "save_final_report final_reports uuid4 sid stid data =
     (let wc = count_words (map snd data) 0
      in (uuid4,
          final_reports @ [\<lparr>report_id = uuid4, session_id = sid, structure_id = stid,
                             report_data = data, word_count = wc\<rparr>]))"

section \<open>Notions used to state the properties\<close>

text \<open>A word is a non-empty string without whitespace: what \<open>split\<close> returns.\<close>

definition is_word :: "string \<Rightarrow> bool" where
  "is_word w = (w \<noteq> [] \<and> (\<forall>c \<in> set w. \<not> isspace c))"

text \<open>
  A world in which every service fails: no network, no browser, no model. The worlds of
  the examples below change some of its fields.
\<close>

definition offline :: world where
  "offline =
     \<lparr>requests_get = (\<lambda>url params. Inl (Exception ''ConnectionError'')),
      json_brave = (\<lambda>r. Inl (Exception ''JSONDecodeError'')),
      json_scholar = (\<lambda>r. Inl (Exception ''JSONDecodeError'')),
      ddgs_text = (\<lambda>attempt q n. Inl (Exception ''RatelimitException'')),
      google_search = (\<lambda>q n. Inl (Exception ''HTTPError'')),
      soup_paragraphs = (\<lambda>html. Inr []),
      article_text = (\<lambda>url. Inl (Exception ''ArticleException'')),
      page_content = (\<lambda>url. Inl (Exception ''TimeoutError'')),
      cos_sim = (\<lambda>q d. 0),
      llm_ainvoke = (\<lambda>prompt. Inl (Exception ''APIConnectionError''))\<rparr>"

text \<open>A world whose embedder scores a longer document higher.\<close>

definition by_length :: world where
  "by_length = offline\<lparr>cos_sim := (\<lambda>q d. real (length d) / 100000)\<rparr>"

text \<open>A world whose every request is answered with status 200 and the given body.\<close>

definition serving :: "string \<Rightarrow> world" where
  "serving page = offline\<lparr>requests_get := (\<lambda>url params. Inr \<lparr>status_code = 200, body = page\<rparr>)\<rparr>"





text \<open>
  A request fails when it raises (network error, timeout) or is answered with an HTTP
  error status.
\<close>

definition request_fails :: "world \<Rightarrow> string \<Rightarrow> (string \<times> param) list \<Rightarrow> bool" where
  "request_fails w url params =
     (case requests_get w url params of
        Inl e \<Rightarrow> True
      | Inr r \<Rightarrow> 400 \<le> status_code r \<and> status_code r < 600)"




text \<open>A world in which only the last search function finds a link, and no page can be read.\<close>

definition links_only :: world where
  "links_only = offline\<lparr>google_search := (\<lambda>q n. Inr [''https://a.example/1''])\<rparr>"



text \<open>The extraction of a URL gives a text: it returns one that is not empty.\<close>

definition scraped :: "world \<Rightarrow> py_value \<Rightarrow> bool" where
  "scraped w url = (case fetch_value w url of Inl e \<Rightarrow> False | Inr content \<Rightarrow> content \<noteq> [])"

text \<open>The words a section value adds to the count of a report.\<close>

fun words_of_value :: "py_value \<Rightarrow> nat" where
  "words_of_value (PyStr s) = length (split_ws s)"
| "words_of_value v = 0"

text \<open>
  A pattern matches at the start of the input whatever follows its match when text
  appended to the input is appended to every rest.
\<close>

definition extends :: "pattern \<Rightarrow> bool" where
  "extends p = (\<forall>s r t. r \<in> set (p s) \<longrightarrow> r @ t \<in> set (p (s @ t)))"

section \<open>Words and whitespace\<close>

lemma isspace_space: "isspace CHR '' ''"
  by (simp add: isspace_def)

lemma isspace_newline: "isspace (CHR 0x0A)"
  by (simp add: isspace_def)

lemma split_acc_nonspace:
  "\<forall>c \<in> set u. \<not> isspace c \<Longrightarrow> split_acc w (u @ rest) = split_acc (w @ u) rest"
  by (induction u arbitrary: w) auto

lemma split_acc_append_space:
  "isspace sp \<Longrightarrow> split_acc w (a @ sp # b) = split_acc w a @ split_ws b"
  by (induction a arbitrary: w) (auto simp: split_ws_def)

lemma split_ws_append_space:
  "isspace sp \<Longrightarrow> split_ws (a @ sp # b) = split_ws a @ split_ws b"
  by (simp add: split_ws_def split_acc_append_space[unfolded split_ws_def])

lemma is_word_snoc: "w = [] \<or> is_word w \<Longrightarrow> \<not> isspace c \<Longrightarrow> is_word (w @ [c])"
  by (auto simp: is_word_def)

lemma split_acc_words:
  "w = [] \<or> is_word w \<Longrightarrow> x \<in> set (split_acc w s) \<Longrightarrow> is_word x"
proof (induction s arbitrary: w)
  case Nil
  then show ?case by (auto split: if_splits)
next
  case (Cons c cs)
  show ?case
  proof (cases "isspace c")
    case True
    with Cons.prems have "x = w \<and> is_word w \<or> x \<in> set (split_acc [] cs)"
      by (auto split: if_splits)
    then show ?thesis using Cons.IH[of "[]"] by blast
  next
    case False
    with Cons.prems have "x \<in> set (split_acc (w @ [c]) cs)" by simp
    moreover have "is_word (w @ [c])" using Cons.prems(1) False by (rule is_word_snoc)
    ultimately show ?thesis using Cons.IH[of "w @ [c]"] by blast
  qed
qed

lemma split_ws_words: "x \<in> set (split_ws s) \<Longrightarrow> is_word x"
  using split_acc_words[of "[]" x s] by (simp add: split_ws_def)

lemma split_ws_word: "is_word w \<Longrightarrow> split_ws w = [w]"
  using split_acc_nonspace[of w "[]" "[]"] by (simp add: split_ws_def is_word_def)

lemma split_ws_join:
  "\<forall>w \<in> set ws. is_word w \<Longrightarrow> split_ws (join '' '' ws) = ws"
proof (induction ws rule: induct_list012)
  case 1
  then show ?case by (simp add: split_ws_def)
next
  case (2 x)
  then show ?case by (simp add: split_ws_word)
next
  case (3 x y zs)
  then show ?case
    by (simp add: split_ws_append_space[OF isspace_space] split_ws_word)
qed

lemma split_ws_replicate:
  "is_word w \<Longrightarrow> split_ws (concat (replicate n (w @ '' ''))) = replicate n w"
proof (induction n)
  case 0
  then show ?case by (simp add: split_ws_def)
next
  case (Suc n)
  then show ?case
    by (simp add: split_ws_append_space[OF isspace_space] split_ws_word)
qed

section \<open>truncate_context\<close>

lemma split_ws_marker: "split_ws (a @ TRUNCATED) = split_ws a @ [''...[TRUNCATED]'']"
proof -
  have "split_ws (a @ CHR 0x0A # CHR 0x0A # ''...[TRUNCATED]'')
          = split_ws a @ split_ws (CHR 0x0A # ''...[TRUNCATED]'')"
    by (rule split_ws_append_space[OF isspace_newline])
  moreover have "split_ws (CHR 0x0A # ''...[TRUNCATED]'') = [''...[TRUNCATED]'']"
    by (simp add: split_ws_def isspace_def)
  ultimately show ?thesis by (simp add: TRUNCATED_def)
qed

lemma truncate_context_short:
  "length (split_ws text) \<le> MAX_WORD_LIMIT \<Longrightarrow> truncate_context text = join '' '' (split_ws text)"
  by (simp add: truncate_context_def Let_def)

lemma truncate_context_long:
  "MAX_WORD_LIMIT < length (split_ws text) \<Longrightarrow>
     truncate_context text = join '' '' (take MAX_WORD_LIMIT (split_ws text)) @ TRUNCATED"
  by (simp add: truncate_context_def Let_def)

lemma split_ws_truncate_context:
  "split_ws (truncate_context text) =
     take MAX_WORD_LIMIT (split_ws text)
     @ (if MAX_WORD_LIMIT < length (split_ws text) then [''...[TRUNCATED]''] else [])"
proof -
  define ws where "ws = take MAX_WORD_LIMIT (split_ws text)"
  have "\<forall>x \<in> set ws. is_word x"
    unfolding ws_def by (meson in_set_takeD split_ws_words)
  then have "split_ws (join '' '' ws) = ws"
    by (rule split_ws_join)
  moreover have "truncate_context text =
      join '' '' ws @ (if MAX_WORD_LIMIT < length (split_ws text) then TRUNCATED else [])"
    by (simp add: truncate_context_def Let_def ws_def)
  ultimately show ?thesis
    unfolding ws_def[symmetric] by (simp add: split_ws_marker)
qed

text \<open>
  C1, as the claim states it, fails: a text of two words separated by two spaces is
  within the limit and is not returned unchanged.
\<close>

theorem truncate_context_unchanged_counterexample:
  "length (split_ws ''a  b'') \<le> MAX_WORD_LIMIT \<and> truncate_context ''a  b'' \<noteq> ''a  b''"
  by (simp add: truncate_context_def split_ws_def isspace_def MAX_WORD_LIMIT_def)

text \<open>
  C1, amended: a text of at most 9000 words is returned as its words joined by single
  spaces; a text of more than 9000 words is returned as its first 9000 words joined by
  single spaces, followed by the truncation marker; a text that already is at most 9000
  words joined by single spaces is returned unchanged.
\<close>

theorem truncate_context_spec:
  "(length (split_ws text) \<le> MAX_WORD_LIMIT \<longrightarrow>
      truncate_context text = join '' '' (split_ws text)) \<and>
   (MAX_WORD_LIMIT < length (split_ws text) \<longrightarrow>
      truncate_context text = join '' '' (take MAX_WORD_LIMIT (split_ws text)) @ TRUNCATED) \<and>
   ((\<forall>w \<in> set ws. is_word w) \<and> length ws \<le> MAX_WORD_LIMIT \<longrightarrow>
      truncate_context (join '' '' ws) = join '' '' ws)"
proof (intro conjI impI)
  assume "length (split_ws text) \<le> MAX_WORD_LIMIT"
  then show "truncate_context text = join '' '' (split_ws text)"
    by (rule truncate_context_short)
next
  assume "MAX_WORD_LIMIT < length (split_ws text)"
  then show "truncate_context text = join '' '' (take MAX_WORD_LIMIT (split_ws text)) @ TRUNCATED"
    by (rule truncate_context_long)
next
  assume a: "(\<forall>w \<in> set ws. is_word w) \<and> length ws \<le> MAX_WORD_LIMIT"
  then have "split_ws (join '' '' ws) = ws" by (simp add: split_ws_join)
  with a show "truncate_context (join '' '' ws) = join '' '' ws"
    by (simp add: truncate_context_short)
qed

theorem truncate_context_spec_witness:
  "truncate_context ''a  b'' = ''a b'' \<and>
   truncate_context (concat (replicate 9001 ''a '')) = join '' '' (replicate 9000 ''a'') @ TRUNCATED \<and>
   truncate_context ''a b'' = ''a b''"
proof -
  have s1: "split_ws ''a  b'' = [''a'', ''b'']"
    by (simp add: split_ws_def isspace_def)
  have w: "is_word ''a''" "is_word ''b''"
    by (simp_all add: is_word_def isspace_def)
  have s2: "split_ws (concat (replicate 9001 ''a '')) = replicate 9001 ''a''"
    using split_ws_replicate[OF w(1), of 9001] by simp
  show ?thesis
    using truncate_context_spec[of "''a  b''" "[''a'', ''b'']"]
      truncate_context_spec[of "concat (replicate 9001 ''a '')" "[]"]
    by (simp add: s1 s2 w MAX_WORD_LIMIT_def)
qed

text \<open>
  C7: \<open>truncate_context\<close> is idempotent. The output for a text of more than 9000 words
  has 9001 words, the marker being the last one, so truncating it again keeps the same
  9000 words and appends the marker again: the same string. For a text of 10000 words
  the output is the first 9000 words and the marker, and truncating it again changes
  nothing.
\<close>

theorem truncate_context_idempotent:
  "truncate_context (truncate_context text) = truncate_context text \<and>
   (length (split_ws text) = 10000 \<longrightarrow>
      truncate_context text = join '' '' (take 9000 (split_ws text)) @ TRUNCATED \<and>
      truncate_context (join '' '' (take 9000 (split_ws text)) @ TRUNCATED)
        = join '' '' (take 9000 (split_ws text)) @ TRUNCATED)"
proof -
  have idem: "truncate_context (truncate_context t) = truncate_context t" for t
  proof (cases "MAX_WORD_LIMIT < length (split_ws t)")
    case True
    then have "split_ws (truncate_context t)
                 = take MAX_WORD_LIMIT (split_ws t) @ [''...[TRUNCATED]'']"
      by (simp add: split_ws_truncate_context)
    moreover from True have "length (take MAX_WORD_LIMIT (split_ws t)) = MAX_WORD_LIMIT"
      by simp
    ultimately have "truncate_context (truncate_context t)
        = join '' '' (take MAX_WORD_LIMIT (split_ws t)) @ TRUNCATED"
      unfolding truncate_context_def[of "truncate_context t"] Let_def by simp
    with True show ?thesis by (simp add: truncate_context_long)
  next
    case False
    then have "split_ws (truncate_context t) = split_ws t"
      by (simp add: split_ws_truncate_context)
    with False show ?thesis
      unfolding truncate_context_def[of "truncate_context t"] Let_def
      by (simp add: truncate_context_short)
  qed
  have "truncate_context text = join '' '' (take 9000 (split_ws text)) @ TRUNCATED \<and>
      truncate_context (join '' '' (take 9000 (split_ws text)) @ TRUNCATED)
        = join '' '' (take 9000 (split_ws text)) @ TRUNCATED"
    if "length (split_ws text) = 10000"
  proof -
    from that have "truncate_context text = join '' '' (take 9000 (split_ws text)) @ TRUNCATED"
      using truncate_context_long[of "text"] by (simp add: MAX_WORD_LIMIT_def)
    then show ?thesis using idem[of "text"] by simp
  qed
  with idem show ?thesis by blast
qed

theorem truncate_context_idempotent_witness:
  "truncate_context (concat (replicate 10000 ''a '')) = join '' '' (replicate 9000 ''a'') @ TRUNCATED \<and>
   truncate_context (join '' '' (replicate 9000 ''a'') @ TRUNCATED)
     = join '' '' (replicate 9000 ''a'') @ TRUNCATED"
proof -
  have w: "is_word ''a''"
    by (simp add: is_word_def isspace_def)
  have s: "split_ws (concat (replicate 10000 ''a '')) = replicate 10000 ''a''"
    using split_ws_replicate[OF w, of 10000] by simp
  from truncate_context_idempotent[of "concat (replicate 10000 ''a '')"]
  show ?thesis by (simp add: s)
qed

section \<open>rank_and_select_contexts\<close>

lemma split_ws_leading_space: "isspace sp \<Longrightarrow> split_ws (sp # b) = split_ws b"
  by (simp add: split_ws_def)

lemma split_ws_join_blank:
  "split_ws (join [CHR 0x0A, CHR 0x0A] ds) = concat (map split_ws ds)"
proof (induction ds rule: induct_list012)
  case 1
  then show ?case by (simp add: split_ws_def)
next
  case (2 x)
  then show ?case by simp
next
  case (3 x y zs)
  then show ?case
    by (simp add: split_ws_append_space[OF isspace_newline]
        split_ws_leading_space[OF isspace_newline])
qed

lemma sublist_join: "d \<in> set ds \<Longrightarrow> sublist d (join sep ds)"
proof (induction ds rule: induct_list012)
  case 1
  then show ?case by simp
next
  case (2 x)
  then show ?case by simp
next
  case (3 x y zs)
  show ?case
  proof (cases "d = x")
    case True
    then show ?thesis by (simp add: sublist_append_rightI)
  next
    case False
    with 3 have "sublist d (join sep (y # zs))" by simp
    then show ?thesis by (auto simp: sublist_append)
  qed
qed

text \<open>
  The selection loop returns what was selected before, followed by the longest run of
  the ranked documents that fits the budget.
\<close>

lemma select_loop_prefix:
  "\<exists>k \<le> length rs.
      select_loop rs sel tw = sel @ map snd (take k rs) \<and>
      (tw \<le> MAX_WORD_LIMIT \<longrightarrow>
         tw + (\<Sum>d\<leftarrow>map snd (take k rs). length (split_ws d)) \<le> MAX_WORD_LIMIT) \<and>
      (k < length rs \<longrightarrow>
         tw + (\<Sum>d\<leftarrow>map snd (take (Suc k) rs). length (split_ws d)) > MAX_WORD_LIMIT)"
proof (induction rs arbitrary: sel tw)
  case Nil
  then show ?case by simp
next
  case (Cons r rs)
  obtain score doc where r: "r = (score, doc)" by (cases r)
  show ?case
  proof (cases "tw + length (split_ws doc) > MAX_WORD_LIMIT")
    case True
    then show ?thesis
      by (intro exI[of _ 0]) (simp add: r)
  next
    case False
    from Cons.IH[of "sel @ [doc]" "tw + length (split_ws doc)"]
    obtain k where k: "k \<le> length rs"
      "select_loop rs (sel @ [doc]) (tw + length (split_ws doc)) = (sel @ [doc]) @ map snd (take k rs)"
      "tw + length (split_ws doc) \<le> MAX_WORD_LIMIT \<longrightarrow>
         tw + length (split_ws doc) + (\<Sum>d\<leftarrow>map snd (take k rs). length (split_ws d)) \<le> MAX_WORD_LIMIT"
      "k < length rs \<longrightarrow>
         tw + length (split_ws doc) + (\<Sum>d\<leftarrow>map snd (take (Suc k) rs). length (split_ws d)) > MAX_WORD_LIMIT"
      by blast
    from False k show ?thesis
      by (intro exI[of _ "Suc k"]) (simp add: r add.assoc)
  qed
qed

lemma ranked_sorted: "sorted (map (\<lambda>x. - fst x) (ranked w query docs))"
  by (simp add: ranked_def)

lemma ranked_mset: "mset (map snd (ranked w query docs)) = mset docs"
proof -
  have "mset (ranked w query docs) = mset (map (\<lambda>doc. (cos_sim w query doc, doc)) docs)"
    by (simp add: ranked_def)
  then have "image_mset snd (mset (ranked w query docs))
      = image_mset snd (mset (map (\<lambda>doc. (cos_sim w query doc, doc)) docs))"
    by simp
  then show ?thesis by (simp add: image_mset.compositionality comp_def)
qed

lemma ranked_length: "length (ranked w query docs) = length docs"
  by (simp add: ranked_def)

lemma ranked_in_order:
  "sorted (map (\<lambda>doc. - cos_sim w query doc) docs) \<Longrightarrow>
     ranked w query docs = map (\<lambda>doc. (cos_sim w query doc, doc)) docs"
  unfolding ranked_def by (rule sort_key_id_if_sorted) (simp add: comp_def)

lemma ranked_score: "x \<in> set (ranked w query docs) \<Longrightarrow> fst x = cos_sim w query (snd x)"
  by (auto simp: ranked_def)

lemma ranked_descending:
  "sorted_wrt (\<lambda>a b. cos_sim w query b \<le> cos_sim w query a) (map snd (ranked w query docs))"
proof -
  have "sorted_wrt (\<lambda>x y. - fst x \<le> - fst y) (ranked w query docs)"
    using ranked_sorted[of w query docs] by (simp add: sorted_wrt_map)
  then have "sorted_wrt (\<lambda>x y. cos_sim w query (snd y) \<le> cos_sim w query (snd x))
      (ranked w query docs)"
  proof (rule sorted_wrt_mono_rel[rotated])
    fix x y
    assume "x \<in> set (ranked w query docs)" "y \<in> set (ranked w query docs)"
      "- fst x \<le> - fst y"
    then show "cos_sim w query (snd y) \<le> cos_sim w query (snd x)"
      using ranked_score[of x w query docs] ranked_score[of y w query docs] by simp
  qed
  then show ?thesis by (simp add: sorted_wrt_map)
qed

lemma ranked_stable:
  "filter (\<lambda>d. cos_sim w query d = s) (map snd (ranked w query docs))
     = filter (\<lambda>d. cos_sim w query d = s) docs"
proof -
  have "filter (\<lambda>x. - fst x = - s) (ranked w query docs)
      = filter (\<lambda>x. - fst x = - s) (map (\<lambda>doc. (cos_sim w query doc, doc)) docs)"
    unfolding ranked_def by (rule sort_key_stable)
  then have "map snd (filter (\<lambda>x. fst x = s) (ranked w query docs))
      = map snd (filter (\<lambda>x. fst x = s) (map (\<lambda>doc. (cos_sim w query doc, doc)) docs))"
    by simp
  moreover have "filter (\<lambda>x. fst x = s) (ranked w query docs)
      = filter (\<lambda>x. cos_sim w query (snd x) = s) (ranked w query docs)"
    by (rule filter_cong) (simp_all add: ranked_score)
  ultimately show ?thesis
    by (simp add: filter_map comp_def)
qed

lemma filter_single:
  "filter_mset P (mset l) = {#a#} \<Longrightarrow> filter P l = [a]"
  by (metis mset_filter mset_single_iff_right)

lemma ranked_three:
  assumes "mset docs = {#d1, d2, d3#}"
    and "cos_sim w query d2 < cos_sim w query d1" "cos_sim w query d3 < cos_sim w query d2"
  shows "ranked w query docs
     = [(cos_sim w query d1, d1), (cos_sim w query d2, d2), (cos_sim w query d3, d3)]"
  unfolding ranked_def
proof (rule properties_for_sort_key)
  let ?mk = "\<lambda>doc. (cos_sim w query doc, doc)"
  have m: "mset (map ?mk docs) = {#?mk d1, ?mk d2, ?mk d3#}"
    by (simp add: assms(1))
  show "mset [?mk d1, ?mk d2, ?mk d3] = mset (map ?mk docs)"
    unfolding m by simp
  show "sorted (map (\<lambda>x. - fst x) [?mk d1, ?mk d2, ?mk d3])"
    using assms(2,3) by simp
  fix k
  assume "k \<in> set [?mk d1, ?mk d2, ?mk d3]"
  then consider "k = ?mk d1" | "k = ?mk d2" | "k = ?mk d3" by auto
  then have "filter_mset (\<lambda>x. - fst k = - fst x) {#?mk d1, ?mk d2, ?mk d3#} = {#k#} \<and>
      filter (\<lambda>x. - fst k = - fst x) [?mk d1, ?mk d2, ?mk d3] = [k]"
  proof cases
    case 1
    with assms(2,3) show ?thesis by simp
  next
    case 2
    with assms(2,3) show ?thesis by simp
  next
    case 3
    with assms(2,3) show ?thesis by simp
  qed
  then have "filter_mset (\<lambda>x. - fst k = - fst x) (mset (map ?mk docs)) = {#k#}"
    and l: "filter (\<lambda>x. - fst k = - fst x) [?mk d1, ?mk d2, ?mk d3] = [k]"
    unfolding m by simp_all
  then have "filter (\<lambda>x. - fst k = - fst x) (map ?mk docs) = [k]"
    by (intro filter_single)
  with l show "filter (\<lambda>x. - fst k = - fst x) [?mk d1, ?mk d2, ?mk d3]
      = filter (\<lambda>x. - fst k = - fst x) (map ?mk docs)"
    by simp
qed

lemma selected_contexts_prefix:
  "\<exists>k \<le> length docs.
      selected_contexts w query docs = take k (map snd (ranked w query docs)) \<and>
      (\<Sum>d\<leftarrow>take k (map snd (ranked w query docs)). length (split_ws d)) \<le> MAX_WORD_LIMIT \<and>
      (k < length docs \<longrightarrow>
         (\<Sum>d\<leftarrow>take (Suc k) (map snd (ranked w query docs)). length (split_ws d)) > MAX_WORD_LIMIT)"
  using select_loop_prefix[of "ranked w query docs" "[]" 0]
  by (simp add: selected_contexts_def ranked_length take_map)

lemma selected_three:
  assumes "length (split_ws d1) = 6000" "length (split_ws d2) = 4000"
    and "cos_sim w query d2 \<le> cos_sim w query d1" "cos_sim w query d3 \<le> cos_sim w query d2"
  shows "selected_contexts w query [d1, d2, d3] = [d1]"
proof -
  have "ranked w query [d1, d2, d3] = map (\<lambda>doc. (cos_sim w query doc, doc)) [d1, d2, d3]"
    using assms(3,4) by (intro ranked_in_order) simp
  then show ?thesis
    using assms(1,2) by (simp add: selected_contexts_def MAX_WORD_LIMIT_def)
qed

lemma selected_three_any_order:
  assumes "mset docs = {#d1, d2, d3#}"
    and "length (split_ws d1) = 6000" "length (split_ws d2) = 4000"
    and "cos_sim w query d2 < cos_sim w query d1" "cos_sim w query d3 < cos_sim w query d2"
  shows "selected_contexts w query docs = [d1]"
  using assms(2,3)
  by (simp add: selected_contexts_def ranked_three[OF assms(1,4,5)] MAX_WORD_LIMIT_def)

text \<open>
  C5: the ranked list holds every document with its score, in descending score order,
  documents of equal score in the order given; the selection is the longest run from
  the top of the ranked list whose word counts sum to at most 9000, so the first
  document that would exceed the budget ends the selection and nothing after it is
  taken. Documents of 6000, 4000 and 500 words in score order give the first one only,
  also when they are passed in another order and their scores differ.
\<close>

theorem rank_and_select_contexts_greedy:
  "sorted (map (\<lambda>x. - fst x) (ranked w query docs)) \<and>
   (\<forall>x \<in> set (ranked w query docs). fst x = cos_sim w query (snd x)) \<and>
   mset (map snd (ranked w query docs)) = mset docs \<and>
   sorted_wrt (\<lambda>a b. cos_sim w query b \<le> cos_sim w query a) (map snd (ranked w query docs)) \<and>
   (\<forall>s. filter (\<lambda>d. cos_sim w query d = s) (map snd (ranked w query docs))
          = filter (\<lambda>d. cos_sim w query d = s) docs) \<and>
   (\<exists>k \<le> length docs.
      selected_contexts w query docs = take k (map snd (ranked w query docs)) \<and>
      (\<Sum>d\<leftarrow>take k (map snd (ranked w query docs)). length (split_ws d)) \<le> MAX_WORD_LIMIT \<and>
      (k < length docs \<longrightarrow>
         (\<Sum>d\<leftarrow>take (Suc k) (map snd (ranked w query docs)). length (split_ws d)) > MAX_WORD_LIMIT)) \<and>
   rank_and_select_contexts w query docs
     = join [CHR 0x0A, CHR 0x0A] (selected_contexts w query docs) \<and>
   (length (split_ws d1) = 6000 \<and> length (split_ws d2) = 4000 \<and> length (split_ws d3) = 500 \<and>
    cos_sim w query d2 \<le> cos_sim w query d1 \<and> cos_sim w query d3 \<le> cos_sim w query d2 \<longrightarrow>
      selected_contexts w query [d1, d2, d3] = [d1] \<and>
      rank_and_select_contexts w query [d1, d2, d3] = d1) \<and>
   (mset docs = {#d1, d2, d3#} \<and>
    length (split_ws d1) = 6000 \<and> length (split_ws d2) = 4000 \<and> length (split_ws d3) = 500 \<and>
    cos_sim w query d2 < cos_sim w query d1 \<and> cos_sim w query d3 < cos_sim w query d2 \<longrightarrow>
      selected_contexts w query docs = [d1] \<and>
      rank_and_select_contexts w query docs = d1)"
proof (intro conjI impI allI ballI)
  fix x
  assume "x \<in> set (ranked w query docs)"
  then show "fst x = cos_sim w query (snd x)"
    by (rule ranked_score)
next
  show "sorted (map (\<lambda>x. - fst x) (ranked w query docs))"
    by (rule ranked_sorted)
  show "mset (map snd (ranked w query docs)) = mset docs"
    by (rule ranked_mset)
  show "sorted_wrt (\<lambda>a b. cos_sim w query b \<le> cos_sim w query a) (map snd (ranked w query docs))"
    by (rule ranked_descending)
  show "\<exists>k \<le> length docs.
      selected_contexts w query docs = take k (map snd (ranked w query docs)) \<and>
      (\<Sum>d\<leftarrow>take k (map snd (ranked w query docs)). length (split_ws d)) \<le> MAX_WORD_LIMIT \<and>
      (k < length docs \<longrightarrow>
         (\<Sum>d\<leftarrow>take (Suc k) (map snd (ranked w query docs)). length (split_ws d)) > MAX_WORD_LIMIT)"
    by (rule selected_contexts_prefix)
  show "rank_and_select_contexts w query docs
     = join [CHR 0x0A, CHR 0x0A] (selected_contexts w query docs)"
    by (simp add: rank_and_select_contexts_def)
next
  fix s
  show "filter (\<lambda>d. cos_sim w query d = s) (map snd (ranked w query docs))
          = filter (\<lambda>d. cos_sim w query d = s) docs"
    by (rule ranked_stable)
next
  assume a: "length (split_ws d1) = 6000 \<and> length (split_ws d2) = 4000 \<and> length (split_ws d3) = 500 \<and>
    cos_sim w query d2 \<le> cos_sim w query d1 \<and> cos_sim w query d3 \<le> cos_sim w query d2"
  then show "selected_contexts w query [d1, d2, d3] = [d1]"
    by (intro selected_three) simp_all
  then show "rank_and_select_contexts w query [d1, d2, d3] = d1"
    by (simp add: rank_and_select_contexts_def)
next
  assume a: "mset docs = {#d1, d2, d3#} \<and>
    length (split_ws d1) = 6000 \<and> length (split_ws d2) = 4000 \<and> length (split_ws d3) = 500 \<and>
    cos_sim w query d2 < cos_sim w query d1 \<and> cos_sim w query d3 < cos_sim w query d2"
  show "selected_contexts w query docs = [d1]"
    by (rule selected_three_any_order[of docs d1 d2 d3]) (use a in blast)+
  then show "rank_and_select_contexts w query docs = d1"
    by (simp add: rank_and_select_contexts_def)
qed

theorem rank_and_select_contexts_greedy_witness:
  "selected_contexts by_length ''q''
     [concat (replicate 500 ''c ''), concat (replicate 6000 ''a ''), concat (replicate 4000 ''b '')]
     = [concat (replicate 6000 ''a '')] \<and>
   rank_and_select_contexts by_length ''q''
     [concat (replicate 500 ''c ''), concat (replicate 6000 ''a ''), concat (replicate 4000 ''b '')]
     = concat (replicate 6000 ''a '') \<and>
   selected_contexts by_length ''q''
     [concat (replicate 6000 ''a ''), concat (replicate 4000 ''b ''), concat (replicate 500 ''c '')]
     = [concat (replicate 6000 ''a '')]"
proof -
  note inst = rank_and_select_contexts_greedy[of by_length "''q''"
      "[concat (replicate 500 ''c ''), concat (replicate 6000 ''a ''), concat (replicate 4000 ''b '')]"
      "concat (replicate 6000 ''a '')" "concat (replicate 4000 ''b '')"
      "concat (replicate 500 ''c '')"]
  note in_order = inst[THEN conjunct2, THEN conjunct2, THEN conjunct2, THEN conjunct2,
      THEN conjunct2, THEN conjunct2, THEN conjunct2, THEN conjunct1, rule_format]
  note any_order = inst[THEN conjunct2, THEN conjunct2, THEN conjunct2, THEN conjunct2,
      THEN conjunct2, THEN conjunct2, THEN conjunct2, THEN conjunct2, rule_format]
  have w: "is_word ''a''" "is_word ''b''" "is_word ''c''"
    by (simp_all add: is_word_def isspace_def)
  have s: "length (split_ws (concat (replicate 6000 ''a ''))) = 6000"
    "length (split_ws (concat (replicate 4000 ''b ''))) = 4000"
    "length (split_ws (concat (replicate 500 ''c ''))) = 500"
    using split_ws_replicate[OF w(1), of 6000] split_ws_replicate[OF w(2), of 4000]
      split_ws_replicate[OF w(3), of 500] by simp_all
  have c: "cos_sim by_length ''q'' (concat (replicate 4000 ''b ''))
             < cos_sim by_length ''q'' (concat (replicate 6000 ''a ''))"
    "cos_sim by_length ''q'' (concat (replicate 500 ''c ''))
             < cos_sim by_length ''q'' (concat (replicate 4000 ''b ''))"
    by (simp_all add: by_length_def length_concat sum_list_replicate)
  have m: "mset [concat (replicate 500 ''c ''), concat (replicate 6000 ''a ''),
                 concat (replicate 4000 ''b '')]
      = {#concat (replicate 6000 ''a ''), concat (replicate 4000 ''b ''),
          concat (replicate 500 ''c '')#}"
    by (simp add: add_mset_commute)
  have one: "selected_contexts by_length ''q''
     [concat (replicate 500 ''c ''), concat (replicate 6000 ''a ''), concat (replicate 4000 ''b '')]
     = [concat (replicate 6000 ''a '')] \<and>
   rank_and_select_contexts by_length ''q''
     [concat (replicate 500 ''c ''), concat (replicate 6000 ''a ''), concat (replicate 4000 ''b '')]
     = concat (replicate 6000 ''a '')"
    using m s c by (intro any_order conjI) simp_all
  have two: "selected_contexts by_length ''q''
     [concat (replicate 6000 ''a ''), concat (replicate 4000 ''b ''), concat (replicate 500 ''c '')]
     = [concat (replicate 6000 ''a '')]"
    using s c by (intro in_order[THEN conjunct1] conjI) simp_all
  from one two show ?thesis by blast
qed

text \<open>
  C6: the returned string has at most 9000 words, its words are those of the selected
  documents, and every selected document is one of the given documents and occurs in
  the returned string as it is.
\<close>

theorem rank_and_select_contexts_budget:
  "length (split_ws (rank_and_select_contexts w query docs)) \<le> MAX_WORD_LIMIT \<and>
   split_ws (rank_and_select_contexts w query docs)
     = concat (map split_ws (selected_contexts w query docs)) \<and>
   (\<forall>d \<in> set (selected_contexts w query docs).
      d \<in> set docs \<and> sublist d (rank_and_select_contexts w query docs))"
proof -
  obtain k where k: "selected_contexts w query docs = take k (map snd (ranked w query docs))"
    "(\<Sum>d\<leftarrow>take k (map snd (ranked w query docs)). length (split_ws d)) \<le> MAX_WORD_LIMIT"
    using selected_contexts_prefix[of docs w query] by blast
  have words: "split_ws (rank_and_select_contexts w query docs)
     = concat (map split_ws (selected_contexts w query docs))"
    by (simp add: rank_and_select_contexts_def split_ws_join_blank)
  have "length (concat (map split_ws (selected_contexts w query docs)))
     = (\<Sum>d\<leftarrow>selected_contexts w query docs. length (split_ws d))"
    by (simp add: length_concat comp_def)
  with k words have budget: "length (split_ws (rank_and_select_contexts w query docs)) \<le> MAX_WORD_LIMIT"
    by simp
  have "set (map snd (ranked w query docs)) = set docs"
    using ranked_mset[of w query docs] by (metis set_mset_mset)
  then have sub: "set (selected_contexts w query docs) \<subseteq> set docs"
    using k(1) set_take_subset[of k "map snd (ranked w query docs)"] by simp
  have "\<forall>d \<in> set (selected_contexts w query docs).
      d \<in> set docs \<and> sublist d (rank_and_select_contexts w query docs)"
    using sub by (auto simp: rank_and_select_contexts_def intro: sublist_join)
  with budget words show ?thesis by blast
qed

theorem rank_and_select_contexts_budget_witness:
  "rank_and_select_contexts by_length ''q'' [''c'', ''a b''] = ''a b'' @ [CHR 0x0A, CHR 0x0A] @ ''c'' \<and>
   split_ws (rank_and_select_contexts by_length ''q'' [''c'', ''a b'']) = [''a'', ''b'', ''c''] \<and>
   sublist ''a b'' (rank_and_select_contexts by_length ''q'' [''c'', ''a b'']) \<and>
   sublist ''c'' (rank_and_select_contexts by_length ''q'' [''c'', ''a b''])"
proof -
  have c: "cos_sim by_length = (\<lambda>q d. real (length d) / 100000)"
    by (simp add: by_length_def)
  have s: "selected_contexts by_length ''q'' [''c'', ''a b''] = [''a b'', ''c'']"
    by (simp add: selected_contexts_def ranked_def c split_ws_def isspace_def MAX_WORD_LIMIT_def)
  show ?thesis
    using rank_and_select_contexts_budget[of by_length "''q''" "[''c'', ''a b'']"]
    by (simp add: s rank_and_select_contexts_def split_ws_def isspace_def)
qed

section \<open>The arXiv pattern and search_arvix\<close>

text \<open>The indexings of \<open>search_arvix\<close> are in range.\<close>

lemma split_sep_acc_first: "split_sep_acc sep cur s \<noteq> []"
  by (induction sep cur s rule: split_sep_acc.induct) auto

lemma split_sep_first: "split_sep sep s \<noteq> []"
  by (simp add: split_sep_def split_sep_acc_first)

lemma split_sep_acc_second:
  "sep \<noteq> [] \<Longrightarrow> contains sep s \<Longrightarrow> 2 \<le> length (split_sep_acc sep cur s)"
proof (induction sep cur s rule: split_sep_acc.induct)
  case (1 sep cur)
  then show ?case by simp
next
  case (2 sep cur c cs)
  show ?case
  proof (cases "prefix sep (c # cs)")
    case True
    have "1 \<le> length (split_sep_acc sep [] (drop (length sep) (c # cs)))"
      using split_sep_acc_first[of sep "[]" "drop (length sep) (c # cs)"]
      by (simp add: Suc_le_eq)
    with True "2.prems"(1) show ?thesis by simp
  next
    case False
    with "2.prems" have "contains sep cs" by simp
    with False "2.IH"(2) "2.prems"(1) show ?thesis by simp
  qed
qed

lemma split_sep_second: "sep \<noteq> [] \<Longrightarrow> contains sep s \<Longrightarrow> 1 < length (split_sep sep s)"
  using split_sep_acc_second[of sep s "[]"] by (simp add: split_sep_def)

text \<open>The pattern matches at the start of the input whatever follows its match.\<close>

lemma extends_lit: "extends (re_lit p)"
  by (auto simp: extends_def re_lit_def prefix_def)

lemma extends_digit: "extends re_digit"
  by (auto simp: extends_def re_digit_def split: list.splits if_splits)

lemma extends_seq: "extends p \<Longrightarrow> extends q \<Longrightarrow> extends (re_seq p q)"
  unfolding extends_def re_seq_def by fastforce

lemma extends_opt: "extends p \<Longrightarrow> extends (re_opt p)"
  unfolding extends_def re_opt_def by auto

lemma extends_times: "extends p \<Longrightarrow> extends (re_times n p)"
proof (induction n)
  case 0
  then show ?case by (simp add: extends_def)
next
  case (Suc n)
  then have "extends (re_seq p (re_times n p))" by (simp add: extends_seq)
  moreover have "re_times (Suc n) p = re_seq p (re_times n p)"
    by (rule ext) (simp add: re_seq_def)
  ultimately show ?case by simp
qed

lemma digits0_extends: "r \<in> set (re_digits0 s) \<Longrightarrow> r @ t \<in> set (re_digits0 (s @ t))"
proof (induction s)
  case Nil
  then show ?case by (cases t) auto
next
  case (Cons c cs)
  then show ?case by (auto split: if_splits)
qed

lemma extends_digits1: "extends re_digits1"
  unfolding re_digits1_def
  by (intro extends_seq extends_digit) (simp add: extends_def digits0_extends)

lemma extends_ARXIV_VALID_REGEX: "extends ARXIV_VALID_REGEX"
  unfolding ARXIV_VALID_REGEX_def
  by (intro extends_seq extends_opt extends_times extends_lit extends_digit extends_digits1)

lemma re_match_append:
  "re_match ARXIV_VALID_REGEX url \<Longrightarrow> re_match ARXIV_VALID_REGEX (url @ rest)"
proof -
  assume "re_match ARXIV_VALID_REGEX url"
  then obtain r where "r \<in> set (ARXIV_VALID_REGEX url)"
    by (cases "ARXIV_VALID_REGEX url") (auto simp: re_match_def)
  then have "r @ rest \<in> set (ARXIV_VALID_REGEX (url @ rest))"
    using extends_ARXIV_VALID_REGEX by (simp add: extends_def)
  then show ?thesis by (auto simp: re_match_def)
qed

text \<open>What \<open>search_arvix\<close> accepts: entries whose URL starts with a match of the pattern.\<close>

lemma arxiv_links_accepted:
  "url \<in> set (arxiv_links kws entries links) \<Longrightarrow>
     url \<in> set links \<or>
     (\<exists>entry \<in> set entries. url = entry_raw_url entry \<and> re_match ARXIV_VALID_REGEX url \<and>
        set kws \<inter> set (title_words (entry_title entry)) \<noteq> {})"
proof (induction kws entries links rule: arxiv_links.induct)
  case (1 kws links)
  then show ?case by simp
next
  case (2 kws entry entries links)
  then show ?case
    by (fastforce simp: Let_def split: if_splits)
qed

text \<open>
  C4: the claim holds of the two URLs it names, and the code breaks it on a URL with
  text after the identifier: \<open>match\<close> anchors the pattern at the start only, so the entry
  is accepted although its URL is not of the strict form.
\<close>

theorem search_arvix_accepts_trailing_text:
  "\<not> re_match ARXIV_VALID_REGEX ''https://arxiv.org/abs/abcde.12345'' \<and>
   re_match ARXIV_VALID_REGEX ''https://arxiv.org/abs/2301.12345v2'' \<and>
   \<not> re_fullmatch ARXIV_VALID_REGEX ''https://arxiv.org/abs/2301.12345xyz'' \<and>
   search_arvix
     (serving ''<entry><id>https://arxiv.org/abs/2301.12345xyz</id><title>Solar storage</title></entry>'')
     ''solar'' 3
     = Inr [''https://arxiv.org/abs/2301.12345xyz'']"
  by code_simp

section \<open>fetch_full_text\<close>






section \<open>The search providers never raise\<close>

lemma duckduckgo_attempts_no_raise: "\<not> isl (duckduckgo_attempts w query n attempt k)"
  by (induction k arbitrary: attempt) (auto split: sum.splits)

lemma duckduckgo_attempts_all_fail:
  "\<forall>i < k. isl (ddgs_text w (attempt + i) query n) \<Longrightarrow>
     duckduckgo_attempts w query n attempt k = Inr []"
proof (induction k arbitrary: attempt)
  case 0
  then show ?case by simp
next
  case (Suc k)
  from Suc.prems have first: "isl (ddgs_text w attempt query n)"
    by (metis add.right_neutral zero_less_Suc)
  from Suc.prems have "\<forall>i < k. isl (ddgs_text w (Suc attempt + i) query n)"
    by (metis Suc_less_eq add_Suc_shift)
  then have "duckduckgo_attempts w query n (Suc attempt) k = Inr []"
    by (rule Suc.IH)
  with first show ?case by (auto split: sum.splits)
qed

lemma brave_search_no_raise: "\<not> isl (brave_search w query)"
  by (simp add: brave_search_def split: sum.splits)

lemma search_arvix_no_raise: "\<not> isl (search_arvix w query n)"
  by (simp add: search_arvix_def split: sum.splits)

lemma semantic_search_scholar_no_raise: "\<not> isl (semantic_search_scholar w query n)"
  by (simp add: semantic_search_scholar_def split: sum.splits)

lemma search_google_no_raise: "\<not> isl (search_google w query n)"
  by (simp add: search_google_def split: sum.splits)

lemma request_fails_cases:
  "request_fails w url params \<Longrightarrow>
     (\<exists>e. requests_get w url params = Inl e) \<or>
     (\<exists>r. requests_get w url params = Inr r \<and> isl (raise_for_status r))"
  by (auto simp: request_fails_def raise_for_status_def split: sum.splits)

lemma brave_search_request_fails:
  "request_fails w BRAVE_SEARCH_URL [(''q'', PStr query), (''count'', PInt 5)] \<Longrightarrow>
     brave_search w query = Inr []"
  by (drule request_fails_cases)
    (auto simp: brave_search_def brave_search_try_def isl_def split: sum.splits)

lemma brave_search_malformed:
  "requests_get w BRAVE_SEARCH_URL [(''q'', PStr query), (''count'', PInt 5)] = Inr r \<Longrightarrow>
     isl (json_brave w r) \<Longrightarrow> brave_search w query = Inr []"
  by (auto simp: brave_search_def brave_search_try_def isl_def split: sum.splits)

lemma search_arvix_request_fails:
  "request_fails w ARXIV_BASE_URL
      [(''search_query'', PStr (''all:'' @ query)), (''start'', PInt 0),
       (''max_results'', PInt (int n))] \<Longrightarrow>
     search_arvix w query n = Inr []"
  by (drule request_fails_cases)
    (auto simp: search_arvix_def search_arvix_try_def isl_def split: sum.splits)

lemma semantic_search_scholar_request_fails:
  "request_fails w SEMANTIC_SCHOLAR_API
      [(''query'', PStr query), (''limit'', PInt (int n)), (''fields'', PStr ''title,url'')] \<Longrightarrow>
     semantic_search_scholar w query n = Inr []"
  by (drule request_fails_cases)
    (auto simp: semantic_search_scholar_def semantic_search_scholar_try_def isl_def
      split: sum.splits)

lemma semantic_search_scholar_malformed:
  "requests_get w SEMANTIC_SCHOLAR_API
      [(''query'', PStr query), (''limit'', PInt (int n)), (''fields'', PStr ''title,url'')] = Inr r \<Longrightarrow>
     isl (json_scholar w r) \<Longrightarrow> semantic_search_scholar w query n = Inr []"
  by (auto simp: semantic_search_scholar_def semantic_search_scholar_try_def isl_def
      split: sum.splits)

text \<open>
  C9, as the claim states it, fails for a malformed response of the arXiv API: the
  request succeeds, the body is not a feed, and the entries found in it are returned.
\<close>

theorem search_arvix_malformed_counterexample:
  "requests_get (serving ''garbage<id>http://arxiv.org/abs/2301.12345</id><title>solar'')
     ARXIV_BASE_URL
     [(''search_query'', PStr ''all:solar''), (''start'', PInt 0), (''max_results'', PInt 3)]
     = Inr \<lparr>status_code = 200,
            body = ''garbage<id>http://arxiv.org/abs/2301.12345</id><title>solar''\<rparr> \<and>
   search_arvix (serving ''garbage<id>http://arxiv.org/abs/2301.12345</id><title>solar'')
     ''solar'' 3
     = Inr [''http://arxiv.org/abs/2301.12345'']"
proof -
  have "search_arvix (serving ''garbage<id>http://arxiv.org/abs/2301.12345</id><title>solar'')
     ''solar'' 3
     = Inr [''http://arxiv.org/abs/2301.12345'']"
    by code_simp
  then show ?thesis by (simp add: serving_def)
qed

text \<open>
  C9, amended: no provider variant ever propagates an exception, and a variant returns
  the empty URL sequence when its external call fails in one of these ways: the request
  raises (network error, timeout) or is answered with an HTTP error status, for the
  Brave, arXiv and Semantic Scholar searches; the response cannot be decoded, for the
  Brave and Semantic Scholar searches; every attempt raises, for the DuckDuckGo search;
  the call raises, for the Google search.
\<close>

theorem providers_never_raise:
  "\<not> isl (brave_search w query) \<and>
   \<not> isl (search_arvix w query n) \<and>
   \<not> isl (semantic_search_scholar w query n) \<and>
   \<not> isl (search_duckduckgo w query n retries) \<and>
   \<not> isl (search_google w query n) \<and>
   (request_fails w BRAVE_SEARCH_URL [(''q'', PStr query), (''count'', PInt 5)] \<longrightarrow>
      brave_search w query = Inr []) \<and>
   (\<forall>r. requests_get w BRAVE_SEARCH_URL [(''q'', PStr query), (''count'', PInt 5)] = Inr r \<and>
        isl (json_brave w r) \<longrightarrow> brave_search w query = Inr []) \<and>
   (request_fails w ARXIV_BASE_URL
      [(''search_query'', PStr (''all:'' @ query)), (''start'', PInt 0),
       (''max_results'', PInt (int n))] \<longrightarrow>
      search_arvix w query n = Inr []) \<and>
   (request_fails w SEMANTIC_SCHOLAR_API
      [(''query'', PStr query), (''limit'', PInt (int n)), (''fields'', PStr ''title,url'')] \<longrightarrow>
      semantic_search_scholar w query n = Inr []) \<and>
   (\<forall>r. requests_get w SEMANTIC_SCHOLAR_API
        [(''query'', PStr query), (''limit'', PInt (int n)), (''fields'', PStr ''title,url'')] = Inr r \<and>
        isl (json_scholar w r) \<longrightarrow> semantic_search_scholar w query n = Inr []) \<and>
   ((\<forall>attempt < retries. isl (ddgs_text w attempt query n)) \<longrightarrow>
      search_duckduckgo w query n retries = Inr []) \<and>
   (isl (google_search w query n) \<longrightarrow> search_google w query n = Inr [])"
proof (intro conjI impI allI)
  show "\<not> isl (brave_search w query)" by (rule brave_search_no_raise)
  show "\<not> isl (search_arvix w query n)" by (rule search_arvix_no_raise)
  show "\<not> isl (semantic_search_scholar w query n)" by (rule semantic_search_scholar_no_raise)
  show "\<not> isl (search_duckduckgo w query n retries)"
    by (simp add: search_duckduckgo_def duckduckgo_attempts_no_raise)
  show "\<not> isl (search_google w query n)" by (rule search_google_no_raise)
next
  assume "request_fails w BRAVE_SEARCH_URL [(''q'', PStr query), (''count'', PInt 5)]"
  then show "brave_search w query = Inr []" by (rule brave_search_request_fails)
next
  fix r
  assume "requests_get w BRAVE_SEARCH_URL [(''q'', PStr query), (''count'', PInt 5)] = Inr r \<and>
        isl (json_brave w r)"
  then show "brave_search w query = Inr []" by (simp add: brave_search_malformed)
next
  assume "request_fails w ARXIV_BASE_URL
      [(''search_query'', PStr (''all:'' @ query)), (''start'', PInt 0),
       (''max_results'', PInt (int n))]"
  then show "search_arvix w query n = Inr []" by (rule search_arvix_request_fails)
next
  assume "request_fails w SEMANTIC_SCHOLAR_API
      [(''query'', PStr query), (''limit'', PInt (int n)), (''fields'', PStr ''title,url'')]"
  then show "semantic_search_scholar w query n = Inr []"
    by (rule semantic_search_scholar_request_fails)
next
  fix r
  assume "requests_get w SEMANTIC_SCHOLAR_API
        [(''query'', PStr query), (''limit'', PInt (int n)), (''fields'', PStr ''title,url'')] = Inr r \<and>
        isl (json_scholar w r)"
  then show "semantic_search_scholar w query n = Inr []"
    by (simp add: semantic_search_scholar_malformed)
next
  assume "\<forall>attempt < retries. isl (ddgs_text w attempt query n)"
  then show "search_duckduckgo w query n retries = Inr []"
    unfolding search_duckduckgo_def by (intro duckduckgo_attempts_all_fail) simp
next
  assume "isl (google_search w query n)"
  then show "search_google w query n = Inr []"
    by (auto simp: search_google_def isl_def)
qed

theorem providers_never_raise_witness:
  "brave_search offline ''solar'' = Inr [] \<and>
   brave_search (serving ''not json'') ''solar'' = Inr [] \<and>
   search_arvix offline ''solar'' 3 = Inr [] \<and>
   semantic_search_scholar offline ''solar'' 3 = Inr [] \<and>
   semantic_search_scholar (serving ''not json'') ''solar'' 3 = Inr [] \<and>
   search_duckduckgo offline ''solar'' 3 3 = Inr [] \<and>
   search_google offline ''solar'' 3 = Inr []"
proof -
  have f: "request_fails offline url params" for url params
    by (simp add: request_fails_def offline_def)
  have d: "\<forall>attempt < 3. isl (ddgs_text offline attempt ''solar'' 3)"
    by (simp add: offline_def)
  have g: "isl (google_search offline ''solar'' 3)"
    by (simp add: offline_def)
  have s: "requests_get (serving ''not json'') url params = Inr \<lparr>status_code = 200, body = ''not json''\<rparr>"
    "isl (json_brave (serving ''not json'') r)" "isl (json_scholar (serving ''not json'') r)"
    for url params r
    by (simp_all add: serving_def offline_def)
  from providers_never_raise[of offline "''solar''" 3 3] f d g
  have "brave_search offline ''solar'' = Inr []" "search_arvix offline ''solar'' 3 = Inr []"
    "semantic_search_scholar offline ''solar'' 3 = Inr []"
    "search_duckduckgo offline ''solar'' 3 3 = Inr []" "search_google offline ''solar'' 3 = Inr []"
    by blast+
  moreover from providers_never_raise[of "serving ''not json''" "''solar''" 3 3] s
  have "brave_search (serving ''not json'') ''solar'' = Inr []"
    "semantic_search_scholar (serving ''not json'') ''solar'' 3 = Inr []"
    by blast+
  ultimately show ?thesis by blast
qed

section \<open>robust_search\<close>


lemma url_test_string: "url_test (PyStr url) = Inr (malformed_arxiv url)"
  by simp










section \<open>sub_agent_fn\<close>

text \<open>
  The scraping loop keeps the URLs whose extraction returns a text that is not empty,
  with their texts.
\<close>

lemma scrape_loop_filter:
  "scrape_loop w urls contents sites =
     (contents @ map (\<lambda>url. projr (fetch_value w url)) (filter (scraped w) urls),
      sites @ filter (scraped w) urls)"
  by (induction urls arbitrary: contents sites) (auto simp: scraped_def split: sum.splits)

lemma scrape_loop_nothing:
  "\<forall>url \<in> set urls. \<not> scraped w url \<Longrightarrow> scrape_loop w urls [] [] = ([], [])"
  by (simp add: scrape_loop_filter filter_empty_conv)

lemma scrape_loop_no_contents:
  "scrape_loop w urls [] [] = ([], sites) \<Longrightarrow> sites = []"
  by (auto simp: scrape_loop_filter)

lemma scraped_string: "scraped w (PyStr url) \<longleftrightarrow> fst (fetch_full_text w url) \<noteq> []"
  by (simp add: scraped_def)

text \<open>
  C3, as the claim states it, fails: one URL is resolved, its extraction is attempted
  and gives nothing, and the placeholder is returned with no source at all.
\<close>

theorem sub_agent_fn_sources_counterexample:
  "fst (robust_search links_only ''q'' 3) = [PyStr ''https://a.example/1''] \<and>
   fst (fetch_full_text links_only ''https://a.example/1'') = [] \<and>
   sub_agent_fn links_only ''Agent'' ''q''
     = \<lparr>result = ''Agent: No content scraped for: q'', sources = []\<rparr>"
  by code_simp

text \<open>
  C3, amended: when URLs were resolved and the extraction of each of the first two gave
  no text (it returned the empty string, or raised), the sub-agent returns the
  placeholder that no content was scraped for the query, and its list of sources is
  empty.
\<close>

theorem sub_agent_fn_no_content:
  "fst (robust_search w query 3) \<noteq> [] \<and>
   (\<forall>url \<in> set (take 2 (fst (robust_search w query 3))).
      \<forall>content. fetch_value w url = Inr content \<longrightarrow> content = []) \<longrightarrow>
     sub_agent_fn w name query
       = \<lparr>result = name @ '': No content scraped for: '' @ query, sources = []\<rparr>"
proof
  assume a: "fst (robust_search w query 3) \<noteq> [] \<and>
    (\<forall>url \<in> set (take 2 (fst (robust_search w query 3))).
       \<forall>content. fetch_value w url = Inr content \<longrightarrow> content = [])"
  then have "\<forall>url \<in> set (take 2 (fst (robust_search w query 3))). \<not> scraped w url"
    by (auto simp: scraped_def split: sum.splits)
  then have "scrape_loop w (take 2 (fst (robust_search w query 3))) [] [] = ([], [])"
    by (rule scrape_loop_nothing)
  with a show "sub_agent_fn w name query
       = \<lparr>result = name @ '': No content scraped for: '' @ query, sources = []\<rparr>"
    by (simp add: sub_agent_fn_def Let_def)
qed

theorem sub_agent_fn_no_content_witness:
  "sub_agent_fn links_only ''Agent'' ''q''
     = \<lparr>result = ''Agent: No content scraped for: q'', sources = []\<rparr>"
proof -
  have u: "fst (robust_search links_only ''q'' 3) = [PyStr ''https://a.example/1'']"
    by code_simp
  have f: "fetch_value links_only (PyStr ''https://a.example/1'') = Inr []"
    by code_simp
  from sub_agent_fn_no_content[of links_only "''q''" "''Agent''"] u f
  show ?thesis by simp
qed

section \<open>save_final_report\<close>

lemma count_words_sum:
  "count_words vs wc = wc + (\<Sum>v\<leftarrow>vs. words_of_value v)"
  by (induction vs wc rule: count_words.induct) simp_all

text \<open>
  C10: the stored word count is the sum of the word counts of the section values that
  are strings; a value that is not a string, such as a list of sources, adds nothing.
\<close>

theorem save_final_report_word_count:
  "save_final_report final_reports uuid4 sid stid data =
     (uuid4,
      final_reports @ [\<lparr>report_id = uuid4, session_id = sid, structure_id = stid,
                         report_data = data,
                         word_count = (\<Sum>v\<leftarrow>map snd data. words_of_value v)\<rparr>]) \<and>
   words_of_value (PyStr s) = length (split_ws s) \<and>
   words_of_value PyNone = 0 \<and> words_of_value (PyBool b) = 0 \<and> words_of_value (PyInt i) = 0 \<and>
   words_of_value (PyFloat x) = 0 \<and>
   words_of_value (PyList xs) = 0 \<and> words_of_value (PyDict kvs) = 0 \<and>
   save_final_report [] uuid4 sid stid
     [(''Introduction'', PyStr ''solar energy storage''),
      (''Sources Section'', PyList [PyList [PyStr ''https://a.example/1'']]),
      (''Conclusion'', PyStr ''it works'')] =
     (uuid4,
      [\<lparr>report_id = uuid4, session_id = sid, structure_id = stid,
        report_data =
          [(''Introduction'', PyStr ''solar energy storage''),
           (''Sources Section'', PyList [PyList [PyStr ''https://a.example/1'']]),
           (''Conclusion'', PyStr ''it works'')],
        word_count = 5\<rparr>])"
proof -
  have "length (split_ws ''solar energy storage'') = 3" "length (split_ws ''it works'') = 2"
    by (simp_all add: split_ws_def isspace_def)
  then show ?thesis
    by (simp add: save_final_report_def Let_def count_words_sum)
qed

end
